theory Spec2Isabelle
  imports Main
begin

section \<open>Expressions, columns and errors\<close>

text \<open>
  The pushdown rule of the analyzer (package \<open>analyzer\<close>, function \<open>pushdown\<close>) works on
  plan nodes and expressions of the vendored SQL engine. Only the unresolved-table
  placeholder of the engine is part of the sources at hand; every other engine type is
  modelled from the way \<open>pushdown\<close> uses it and from the specification.

  An expression is a field reference (\<open>expression.GetField\<close>: positional index, type, table,
  name, nullability), a conjunction (\<open>expression.And\<close>), or any other expression kind,
  given by a tag and its operands (literals have no operand, comparisons two, ...).
\<close>

type_synonym sqltype = string

datatype expr =
    GetField nat sqltype string string bool
  | And expr expr
  | Other string "expr list"

text \<open>
  A column descriptor of a schema (\<open>sql.Column\<close>). The pass reads only \<open>Name\<close> and
  \<open>Source\<close>; the declared type and the nullability of a column are never inspected by it
  and are left out.
\<close>

record column =
  Name :: string
  Source :: string

type_synonym schema = "column list"

text \<open>
  Errors: the two kinds the sources name, the end-of-rows signal of a row iterator
  (\<open>io.EOF\<close>), and any other error of a collaborator.
\<close>

datatype error =
    ErrFieldMissing string
  | ErrUnresolvedTable
  | EOF
  | ErrOther string

text \<open>
  Modelled from the spec: \<open>TransformUp\<close> on expressions is code of the vendored engine that
  is not among the sources. It transforms every operand first, from left to right, stops
  at the first failure, rebuilds the expression from the transformed operands and applies
  the function to the rebuilt expression (post-order).
\<close>

fun TransformUp :: "(expr \<Rightarrow> error + expr) \<Rightarrow> expr \<Rightarrow> error + expr"
and TransformUps :: "(expr \<Rightarrow> error + expr) \<Rightarrow> expr list \<Rightarrow> error + expr list"
where
  "TransformUp f (GetField i ty t n nu) = f (GetField i ty t n nu)"
| "TransformUp f (And l r) =
     (case TransformUp f l of
        Inl err \<Rightarrow> Inl err
      | Inr l' \<Rightarrow>
          (case TransformUp f r of
             Inl err \<Rightarrow> Inl err
           | Inr r' \<Rightarrow> f (And l' r')))"
| "TransformUp f (Other tag es) =
     (case TransformUps f es of
        Inl err \<Rightarrow> Inl err
      | Inr es' \<Rightarrow> f (Other tag es'))"
| "TransformUps f [] = Inr []"
| "TransformUps f (e # es) =
     (case TransformUp f e of
        Inl err \<Rightarrow> Inl err
      | Inr e' \<Rightarrow>
          (case TransformUps f es of
             Inl err \<Rightarrow> Inl err
           | Inr es' \<Rightarrow> Inr (e' # es')))"

section \<open>Field index fixup\<close>

text \<open>
  The loop \<^verbatim>\<open>for i, col := range schema\<close> of \<open>fixFieldIndexes\<close>: the position of the
  first column whose name and source equal the name and table of the reference, counted
  from \<open>i\<close>; \<open>None\<close> when the loop runs to its end.
\<close>

fun findColumn :: "nat \<Rightarrow> schema \<Rightarrow> string \<Rightarrow> string \<Rightarrow> nat option" where
  "findColumn i [] name table = None"
| "findColumn i (col # cols) name table =
     (if name = Name col \<and> table = Source col then Some i
      else findColumn (Suc i) cols name table)"

text \<open>The function handed to \<open>TransformUp\<close> by \<open>fixFieldIndexes\<close>.\<close>

fun fixField :: "schema \<Rightarrow> expr \<Rightarrow> error + expr" where
  "fixField schema (GetField i ty t n nu) =
     (case findColumn 0 schema n t of
        Some j \<Rightarrow> Inr (GetField j ty t n nu)
      | None \<Rightarrow> Inl (ErrFieldMissing n))"
| "fixField schema e = Inr e"

definition fixFieldIndexes :: "schema \<Rightarrow> expr \<Rightarrow> error + expr" where
  "fixFieldIndexes schema exp = TransformUp (fixField schema) exp"

text \<open>\<open>fixFieldIndexesOnExpressions\<close>: the fixup of a list, failing at the first failure.\<close>

fun fixFieldIndexesOnExpressions :: "schema \<Rightarrow> expr list \<Rightarrow> error + expr list" where
  "fixFieldIndexesOnExpressions schema [] = Inr []"
| "fixFieldIndexesOnExpressions schema (e # es) =
     (case fixFieldIndexes schema e of
        Inl err \<Rightarrow> Inl err
      | Inr e' \<Rightarrow>
          (case fixFieldIndexesOnExpressions schema es of
             Inl err \<Rightarrow> Inl err
           | Inr es' \<Rightarrow> Inr (e' # es')))"

text \<open>
  The words of the specification, for comparison with the code: a reference matches a
  column by (name, source) equality; the index it is to carry is the position of the first
  matching column; \<open>reindex\<close> rewrites every reference of an expression that way and
  changes nothing else; \<open>fieldRefs\<close> lists the references of an expression as
  (table, name) pairs.
\<close>

definition matches :: "string \<Rightarrow> string \<Rightarrow> column \<Rightarrow> bool" where
  "matches table name col \<longleftrightarrow> name = Name col \<and> table = Source col"

definition firstMatch :: "schema \<Rightarrow> string \<Rightarrow> string \<Rightarrow> nat" where
  "firstMatch schema table name = length (takeWhile (\<lambda>col. \<not> matches table name col) schema)"

fun reindex :: "schema \<Rightarrow> expr \<Rightarrow> expr" where
  "reindex schema (GetField i ty t n nu) = GetField (firstMatch schema t n) ty t n nu"
| "reindex schema (And l r) = And (reindex schema l) (reindex schema r)"
| "reindex schema (Other tag es) = Other tag (map (reindex schema) es)"

fun fieldRefs :: "expr \<Rightarrow> (string \<times> string) list" where
  "fieldRefs (GetField i ty t n nu) = [(t, n)]"
| "fieldRefs (And l r) = fieldRefs l @ fieldRefs r"
| "fieldRefs (Other tag es) = concat (map fieldRefs es)"

definition resolvable :: "schema \<Rightarrow> string \<times> string \<Rightarrow> bool" where
  "resolvable schema ref \<longleftrightarrow> (\<exists>col \<in> set schema. matches (fst ref) (snd ref) col)"


section \<open>Tables and plan nodes\<close>

text \<open>
  Modelled from the spec: the table value under a base-table node and its three optional
  capabilities, which \<open>pushdown\<close> tests by type assertion (\<open>sql.FilteredTable\<close>,
  \<open>sql.ProjectedTable\<close>, \<open>sql.IndexableTable\<close>). A capability is present (\<open>Some\<close>) or
  absent (\<open>None\<close>); a present capability holds the methods of the interface, each
  returning a new table value, which has capabilities of its own. \<open>tableFilters\<close> is the
  list of filter expressions a table value is bound to.
\<close>

type_synonym index = string
type_synonym lookup = string

record indexLookup =
  lookup :: lookup
  indexes :: "index list"

datatype table = Table
  (tableName: string)
  (tableSchema: schema)
  (tableFilters: "expr list")
  (FilteredTable: "((expr list \<Rightarrow> expr list) \<times> (expr list \<Rightarrow> table)) option")
  (ProjectedTable: "(string list \<Rightarrow> table) option")
  (IndexableTable: "(lookup \<Rightarrow> table) option")

text \<open>
  Modelled from the spec: the plan node kinds of the vendored engine that \<open>pushdown\<close>
  names or reaches through the expressioner interface, namely base table, filter,
  projection (owns expressions, one child), inner join (owns its condition, two
  children), cross join (owns no expression), and the two statements the pass leaves
  alone. \<open>UnresolvedTable\<close> and \<open>Releaser\<close> are in the sources. The release function of
  a releaser is the closure built at the end of \<open>pushdown\<close>; it is determined by the
  index handles it releases, which stand for it here.
\<close>

datatype node =
    ResolvedTable table
  | UnresolvedTable string
  | Filter expr node
  | Project "expr list" node
  | InnerJoin node node expr
  | CrossJoin node node
  | InsertInto node node "string list"
  | CreateIndex string node "expr list"
  | Releaser node "index list"

text \<open>
  \<open>Resolved\<close>, \<open>Children\<close> and \<open>Schema\<close>. The cases of the placeholder and of the
  releaser are those of the sources. Modelled from the spec: the cases of the other
  kinds. A node is resolved when no placeholder remains beneath it (the expressions of
  this model are all resolved); the schema of a filter is that of its child, the schema
  of a join is the schema of the left child followed by that of the right child.
\<close>

fun Resolved :: "node \<Rightarrow> bool" where
  "Resolved (ResolvedTable t) = True"
| "Resolved (UnresolvedTable name) = False"
| "Resolved (Filter e c) = Resolved c"
| "Resolved (Project es c) = Resolved c"
| "Resolved (InnerJoin l r cond) = (Resolved l \<and> Resolved r)"
| "Resolved (CrossJoin l r) = (Resolved l \<and> Resolved r)"
| "Resolved (InsertInto dst src cols) = (Resolved dst \<and> Resolved src)"
| "Resolved (CreateIndex name t es) = Resolved t"
| "Resolved (Releaser c idxs) = Resolved c"

fun Children :: "node \<Rightarrow> node list" where
  "Children (ResolvedTable t) = []"
| "Children (UnresolvedTable name) = []"
| "Children (Filter e c) = [c]"
| "Children (Project es c) = [c]"
| "Children (InnerJoin l r cond) = [l, r]"
| "Children (CrossJoin l r) = [l, r]"
| "Children (InsertInto dst src cols) = [dst, src]"
| "Children (CreateIndex name t es) = [t]"
| "Children (Releaser c idxs) = [c]"

text \<open>
  Modelled from the spec: the column a projection yields for an expression. A field
  reference keeps its name and table; any other expression is named by its rendering and
  has no source table.
\<close>

fun exprString :: "expr \<Rightarrow> string" where
  "exprString (GetField i ty t n nu) = n"
| "exprString (And l r) = exprString l @ '' AND '' @ exprString r"
| "exprString (Other tag es) = tag"

fun exprColumn :: "expr \<Rightarrow> column" where
  "exprColumn (GetField i ty t n nu) = \<lparr>Name = n, Source = t\<rparr>"
| "exprColumn e = \<lparr>Name = exprString e, Source = []\<rparr>"

fun Schema :: "node \<Rightarrow> schema" where
  "Schema (ResolvedTable t) = tableSchema t"
| "Schema (UnresolvedTable name) = []"
| "Schema (Filter e c) = Schema c"
| "Schema (Project es c) = map exprColumn es"
| "Schema (InnerJoin l r cond) = Schema l @ Schema r"
| "Schema (CrossJoin l r) = Schema l @ Schema r"
| "Schema (InsertInto dst src cols) = [\<lparr>Name = ''updated'', Source = []\<rparr>]"
| "Schema (CreateIndex name t es) = []"
| "Schema (Releaser c idxs) = Schema c"

text \<open>
  \<open>UnresolvedTable.RowIter\<close>: whatever the context, no row sequence and the
  unresolved-table error.
\<close>

definition UnresolvedTable_RowIter :: "'ctx \<Rightarrow> string \<Rightarrow> error + 'iter" where
  "UnresolvedTable_RowIter ctx name = Inl ErrUnresolvedTable"

text \<open>
  Modelled from the spec: the expressions a node owns (\<open>sql.Expressioner\<close>); \<open>None\<close> for
  a node kind that is not an expressioner.
\<close>

fun Expressions :: "node \<Rightarrow> expr list option" where
  "Expressions (Filter e c) = Some [e]"
| "Expressions (Project es c) = Some es"
| "Expressions (InnerJoin l r cond) = Some [cond]"
| "Expressions (CreateIndex name t es) = Some es"
| "Expressions n = None"

text \<open>
  Modelled from the spec: the read-only traversals \<open>plan.Inspect\<close> and
  \<open>plan.InspectExpressions\<close>, as the list of what they visit: every node before its
  children, and, for every node that owns expressions, every expression before its
  operands.
\<close>

fun Inspect :: "node \<Rightarrow> node list" where
  "Inspect (ResolvedTable t) = [ResolvedTable t]"
| "Inspect (UnresolvedTable name) = [UnresolvedTable name]"
| "Inspect (Filter e c) = Filter e c # Inspect c"
| "Inspect (Project es c) = Project es c # Inspect c"
| "Inspect (InnerJoin l r cond) = InnerJoin l r cond # Inspect l @ Inspect r"
| "Inspect (CrossJoin l r) = CrossJoin l r # Inspect l @ Inspect r"
| "Inspect (InsertInto dst src cols) = InsertInto dst src cols # Inspect dst @ Inspect src"
| "Inspect (CreateIndex name t es) = CreateIndex name t es # Inspect t"
| "Inspect (Releaser c idxs) = Releaser c idxs # Inspect c"

fun Walk :: "expr \<Rightarrow> expr list" where
  "Walk (GetField i ty t n nu) = [GetField i ty t n nu]"
| "Walk (And l r) = And l r # Walk l @ Walk r"
| "Walk (Other tag es) = Other tag es # concat (map Walk es)"

definition InspectExpressions :: "node \<Rightarrow> expr list" where
  "InspectExpressions n =
     concat (map (\<lambda>m. case Expressions m of None \<Rightarrow> [] | Some es \<Rightarrow> concat (map Walk es))
                 (Inspect n))"

section \<open>The analysis phase\<close>

text \<open>
  The three collections of the first step of \<open>pushdown\<close>. A Go map read at a missing key
  gives the empty slice, so the two maps to slices are total functions that are \<open>[]\<close>
  everywhere at the start.
\<close>

record columns =
  tableFields :: "(string \<times> string) set"
  fieldsByTable :: "string \<Rightarrow> string list"
  exprsByTable :: "string \<Rightarrow> expr list"

definition noColumns :: columns where
  "noColumns = \<lparr>tableFields = {}, fieldsByTable = (\<lambda>t. []), exprsByTable = (\<lambda>t. [])\<rparr>"

text \<open>The function \<open>pushdown\<close> hands to \<open>plan.InspectExpressions\<close>, on one expression.\<close>

fun findColumn_visit :: "columns \<Rightarrow> expr \<Rightarrow> columns" where
  "findColumn_visit cs (GetField i ty t n nu) =
     (if (t, n) \<notin> tableFields cs
      then cs\<lparr>tableFields := insert (t, n) (tableFields cs),
              fieldsByTable := (fieldsByTable cs)(t := fieldsByTable cs t @ [n]),
              exprsByTable := (exprsByTable cs)(t := exprsByTable cs t @ [GetField i ty t n nu])\<rparr>
      else cs)"
| "findColumn_visit cs e = cs"

definition findColumns :: "expr list \<Rightarrow> columns" where
  "findColumns visited = foldl findColumn_visit noColumns visited"

text \<open>
  The words of the specification for the column usage, for comparison with the code:
  the field references among the visited expressions, in visiting order, as
  (table, column) pairs, and the list that keeps the first occurrence of every element
  and drops every later one.
\<close>

fun fieldRef :: "expr \<Rightarrow> (string \<times> string) list" where
  "fieldRef (GetField i ty t n nu) = [(t, n)]"
| "fieldRef e = []"

definition visitedRefs :: "expr list \<Rightarrow> (string \<times> string) list" where
  "visitedRefs visited = concat (map fieldRef visited)"

fun firstOccurrences :: "'a list \<Rightarrow> 'a list" where
  "firstOccurrences [] = []"
| "firstOccurrences (x # xs) = x # firstOccurrences (filter (\<lambda>y. y \<noteq> x) xs)"

text \<open>
  Modelled from the spec: the filter helpers of the analyzer package, which are not among
  the sources. \<open>splitExpression\<close> splits a predicate through nested conjunctions into its
  non-conjunctive conjuncts; \<open>exprToTableFilters\<close> files every conjunct that mentions
  exactly one table under that table; \<open>merge\<close> appends per table;
  \<open>getUnhandledFilters\<close> drops the conjuncts that are in the handled list;
  \<open>JoinAnd\<close> re-joins a non-empty list (its first element and the rest) by conjunction.
\<close>

type_synonym filters = "string \<Rightarrow> expr list"

fun splitExpression :: "expr \<Rightarrow> expr list" where
  "splitExpression (And l r) = splitExpression l @ splitExpression r"
| "splitExpression e = [e]"

definition addTableFilter :: "filters \<Rightarrow> expr \<Rightarrow> filters" where
  "addTableFilter fs e =
     (case remdups (map fst (fieldRefs e)) of
        [t] \<Rightarrow> fs(t := fs t @ [e])
      | _ \<Rightarrow> fs)"

definition exprToTableFilters :: "expr \<Rightarrow> filters" where
  "exprToTableFilters e = foldl addTableFilter (\<lambda>t. []) (splitExpression e)"

definition merge :: "filters \<Rightarrow> filters \<Rightarrow> filters" where
  "merge f f2 = (\<lambda>k. f k @ f2 k)"

definition getUnhandledFilters :: "expr list \<Rightarrow> expr list \<Rightarrow> expr list" where
  "getUnhandledFilters all handled = filter (\<lambda>f. f \<notin> set handled) all"

definition JoinAnd :: "expr \<Rightarrow> expr list \<Rightarrow> expr" where
  "JoinAnd e es = foldl And e es"

text \<open>The function \<open>pushdown\<close> hands to \<open>plan.Inspect\<close>, and the filters it gathers.\<close>

fun findFilter_visit :: "filters \<Rightarrow> node \<Rightarrow> filters" where
  "findFilter_visit fs (Filter e c) = merge fs (exprToTableFilters e)"
| "findFilter_visit fs n = fs"

definition findFilters :: "node \<Rightarrow> filters" where
  "findFilters n = foldl findFilter_visit (\<lambda>t. []) (Inspect n)"

section \<open>The rewrite phase\<close>

text \<open>
  The two variables the function handed to \<open>TransformUp\<close> writes while the tree is
  rewritten: the filters the tables have reported as handled so far, and the index
  handles taken so far.
\<close>

record rewrite =
  handledFilters :: "expr list"
  queryIndexes :: "index list"

type_synonym transformNodeFunc = "node \<Rightarrow> rewrite \<Rightarrow> (error + node) \<times> rewrite"

text \<open>
  Modelled from the spec, but for the releaser, whose \<open>TransformUp\<close> is in the sources:
  every child is transformed first, from left to right, the node is rebuilt over the
  transformed children and the function is applied to the rebuilt node. The first
  failure ends the traversal; the state it leaves is the state at that point.
\<close>

fun TransformUpNode :: "transformNodeFunc \<Rightarrow> node \<Rightarrow> rewrite \<Rightarrow> (error + node) \<times> rewrite" where
  "TransformUpNode f (ResolvedTable t) s = f (ResolvedTable t) s"
| "TransformUpNode f (UnresolvedTable name) s = f (UnresolvedTable name) s"
| "TransformUpNode f (Filter e c) s =
     (case TransformUpNode f c s of
        (Inl err, s') \<Rightarrow> (Inl err, s')
      | (Inr c', s') \<Rightarrow> f (Filter e c') s')"
| "TransformUpNode f (Project es c) s =
     (case TransformUpNode f c s of
        (Inl err, s') \<Rightarrow> (Inl err, s')
      | (Inr c', s') \<Rightarrow> f (Project es c') s')"
| "TransformUpNode f (InnerJoin l r cond) s =
     (case TransformUpNode f l s of
        (Inl err, s') \<Rightarrow> (Inl err, s')
      | (Inr l', s') \<Rightarrow>
          (case TransformUpNode f r s' of
             (Inl err, s'') \<Rightarrow> (Inl err, s'')
           | (Inr r', s'') \<Rightarrow> f (InnerJoin l' r' cond) s''))"
| "TransformUpNode f (CrossJoin l r) s =
     (case TransformUpNode f l s of
        (Inl err, s') \<Rightarrow> (Inl err, s')
      | (Inr l', s') \<Rightarrow>
          (case TransformUpNode f r s' of
             (Inl err, s'') \<Rightarrow> (Inl err, s'')
           | (Inr r', s'') \<Rightarrow> f (CrossJoin l' r') s''))"
| "TransformUpNode f (InsertInto dst src cols) s =
     (case TransformUpNode f dst s of
        (Inl err, s') \<Rightarrow> (Inl err, s')
      | (Inr dst', s') \<Rightarrow>
          (case TransformUpNode f src s' of
             (Inl err, s'') \<Rightarrow> (Inl err, s'')
           | (Inr src', s'') \<Rightarrow> f (InsertInto dst' src' cols) s''))"
| "TransformUpNode f (CreateIndex name t es) s =
     (case TransformUpNode f t s of
        (Inl err, s') \<Rightarrow> (Inl err, s')
      | (Inr t', s') \<Rightarrow> f (CreateIndex name t' es) s')"
| "TransformUpNode f (Releaser c idxs) s =
     (case TransformUpNode f c s of
        (Inl err, s') \<Rightarrow> (Inl err, s')
      | (Inr c', s') \<Rightarrow> f (Releaser c' idxs) s')"

text \<open>
  Modelled from the spec: \<open>TransformExpressions\<close> of a node that owns expressions
  transforms each owned expression bottom-up with the function, in order, and rebuilds
  the node over the same children; \<open>None\<close> for a node that is not an expressioner.
\<close>

fun TransformExpressions :: "(expr \<Rightarrow> error + expr) \<Rightarrow> node \<Rightarrow> (error + node) option" where
  "TransformExpressions f (Filter e c) =
     Some (case TransformUp f e of Inl err \<Rightarrow> Inl err | Inr e' \<Rightarrow> Inr (Filter e' c))"
| "TransformExpressions f (Project es c) =
     Some (case TransformUps f es of Inl err \<Rightarrow> Inl err | Inr es' \<Rightarrow> Inr (Project es' c))"
| "TransformExpressions f (InnerJoin l r cond) =
     Some (case TransformUp f cond of Inl err \<Rightarrow> Inl err | Inr cond' \<Rightarrow> Inr (InnerJoin l r cond'))"
| "TransformExpressions f (CreateIndex name t es) =
     Some (case TransformUps f es of
             Inl err \<Rightarrow> Inl err
           | Inr es' \<Rightarrow> Inr (CreateIndex name t es'))"
| "TransformExpressions f n = None"

text \<open>
  The filter case of the rewrite, on the rebuilt filter node with predicate \<open>e\<close> and child
  \<open>c\<close>.
\<close>

definition transformFilter :: "expr \<Rightarrow> node \<Rightarrow> rewrite \<Rightarrow> node" where
  "transformFilter e c s =
     (if handledFilters s = [] then Filter e c
      else
        (case getUnhandledFilters (splitExpression e) (handledFilters s) of
           [] \<Rightarrow> c
         | u # us \<Rightarrow> Filter (JoinAnd u us) c))"

text \<open>
  The base-table case, in its three steps. \<open>name\<close> and \<open>schema\<close> are \<open>node.Name()\<close> and
  \<open>node.Schema()\<close> of the node the rewrite was handed, that is, of the table value before
  any capability has been applied to it.
\<close>

definition pushFilters ::
  "filters \<Rightarrow> string \<Rightarrow> schema \<Rightarrow> table \<Rightarrow> rewrite \<Rightarrow> (error + table) \<times> rewrite" where
  "pushFilters fs name schema tbl s =
     (case FilteredTable tbl of
        Some (HandledFilters, WithFilters) \<Rightarrow>
          (let handled = HandledFilters (fs name);
               s' = s\<lparr>handledFilters := handledFilters s @ handled\<rparr>
           in case fixFieldIndexesOnExpressions schema handled of
                Inl err \<Rightarrow> (Inl err, s')
              | Inr fixed \<Rightarrow> (Inr (WithFilters fixed), s'))
      | None \<Rightarrow> (Inr tbl, s))"

definition pushProjection :: "(string \<Rightarrow> string list) \<Rightarrow> string \<Rightarrow> table \<Rightarrow> table" where
  "pushProjection used name tbl =
     (case ProjectedTable tbl of
        Some WithProjection \<Rightarrow> WithProjection (used name)
      | None \<Rightarrow> tbl)"

definition pushIndex ::
  "(string \<rightharpoonup> indexLookup) \<Rightarrow> string \<Rightarrow> table \<Rightarrow> rewrite \<Rightarrow> table \<times> rewrite" where
  "pushIndex ixs name tbl s =
     (case IndexableTable tbl of
        Some WithIndexLookup \<Rightarrow>
          (case ixs name of
             Some indexLookup \<Rightarrow>
               (WithIndexLookup (lookup indexLookup),
                s\<lparr>queryIndexes := queryIndexes s @ indexes indexLookup\<rparr>)
           | None \<Rightarrow> (tbl, s))
      | None \<Rightarrow> (tbl, s))"

definition transformTable ::
  "filters \<Rightarrow> (string \<Rightarrow> string list) \<Rightarrow> (string \<rightharpoonup> indexLookup) \<Rightarrow> table \<Rightarrow> rewrite
     \<Rightarrow> (error + node) \<times> rewrite" where
  "transformTable fs used ixs tbl s =
     (case pushFilters fs (tableName tbl) (tableSchema tbl) tbl s of
        (Inl err, s') \<Rightarrow> (Inl err, s')
      | (Inr filtered, s') \<Rightarrow>
          (case pushIndex ixs (tableName tbl) (pushProjection used (tableName tbl) filtered) s' of
             (indexed, s'') \<Rightarrow> (Inr (ResolvedTable indexed), s'')))"

text \<open>
  The function handed to \<open>TransformExpressions\<close> in the default case: the schemas of the
  children are tried in order; the first one on which the fixup succeeds gives the
  result; a field-missing failure moves on to the next schema, any other failure is
  returned; after the last schema the expression is returned as it is, with no error.
\<close>

fun fixOnSchemas :: "schema list \<Rightarrow> expr \<Rightarrow> error + expr" where
  "fixOnSchemas [] e = Inr e"
| "fixOnSchemas (schema # schemas) e =
     (case fixFieldIndexes schema e of
        Inr fixed \<Rightarrow> Inr fixed
      | Inl (ErrFieldMissing name) \<Rightarrow> fixOnSchemas schemas e
      | Inl err \<Rightarrow> Inl err)"

text \<open>The default case: every node that is neither a filter nor a base table.\<close>

definition transformDefault :: "node \<Rightarrow> error + node" where
  "transformDefault node =
     (let schemas = map Schema (Children node)
      in case TransformExpressions (fixOnSchemas schemas) node of
           None \<Rightarrow> Inr node
         | Some transformed \<Rightarrow>
             if length schemas < 1 then Inr node
             else
               (case transformed of
                  Inl err \<Rightarrow> Inl err
                | Inr (InnerJoin l r cond) \<Rightarrow>
                    (case fixFieldIndexes (Schema (InnerJoin l r cond)) cond of
                       Inl err \<Rightarrow> Inl err
                     | Inr cond' \<Rightarrow> Inr (InnerJoin l r cond'))
                | Inr n \<Rightarrow> Inr n))"

fun transform ::
  "filters \<Rightarrow> (string \<Rightarrow> string list) \<Rightarrow> (string \<rightharpoonup> indexLookup) \<Rightarrow> transformNodeFunc" where
  "transform fs used ixs (Filter e c) s = (Inr (transformFilter e c s), s)"
| "transform fs used ixs (ResolvedTable tbl) s = transformTable fs used ixs tbl s"
| "transform fs used ixs node s = (transformDefault node, s)"




section \<open>The pass\<close>

text \<open>
  What the pass and the row sequences it produces do to their surroundings, as a trace:
  a call of the index assignment step, a call of the release function built by the pass,
  and, inside it, one \<open>Catalog.ReleaseIndex\<close> per handle. Logging and tracing spans have
  no effect on the result and are left out.
\<close>

datatype event =
    AssignIndexes
  | Release
  | ReleaseIndex index

definition release :: "index list \<Rightarrow> event list \<Rightarrow> event list" where
  "release idxs tr = tr @ Release # map ReleaseIndex idxs"

text \<open>
  \<open>pushdown\<close>. The index assignment step \<open>assignIndexes\<close> is code of the analyzer package
  that is not among the sources; the pass takes its outcome on the tree as a parameter.
\<close>

fun dontPushdown :: "node \<Rightarrow> bool" where
  "dontPushdown (InsertInto dst src cols) = True"
| "dontPushdown (CreateIndex name t es) = True"
| "dontPushdown n = False"

definition pushdown ::
  "(node \<Rightarrow> error + (string \<rightharpoonup> indexLookup)) \<Rightarrow> node \<Rightarrow> event list
     \<Rightarrow> (error + node) \<times> event list" where
  "pushdown assignIndexes n tr =
     (if \<not> Resolved n then (Inr n, tr)
      else if dontPushdown n then (Inr n, tr)
      else
        (let used = fieldsByTable (findColumns (InspectExpressions n));
             fs = findFilters n
         in case assignIndexes n of
              Inl err \<Rightarrow> (Inl err, tr @ [AssignIndexes])
            | Inr ixs \<Rightarrow>
                (case TransformUpNode (transform fs used ixs) n
                        \<lparr>handledFilters = [], queryIndexes = []\<rparr> of
                   (Inl err, s) \<Rightarrow> (Inl err, release (queryIndexes s) (tr @ [AssignIndexes]))
                 | (Inr node, s) \<Rightarrow>
                     if length (queryIndexes s) > 0
                     then (Inr (Releaser node (queryIndexes s)), tr @ [AssignIndexes])
                     else (Inr node, tr @ [AssignIndexes]))))"

section \<open>The releaser and its row sequence\<close>

text \<open>
  The row iterator of the child (\<open>sql.RowIter\<close>) is a collaborator: what its \<open>Next\<close>
  answers at each call, how many calls it has had, and how often it has been closed.
\<close>

type_synonym row = "string list"

record childIter =
  answers :: "nat \<Rightarrow> error + row"
  position :: nat
  closeCalls :: nat

definition childNext :: "childIter \<Rightarrow> (error + row) \<times> childIter" where
  "childNext c = (answers c (position c), c\<lparr>position := Suc (position c)\<rparr>)"

text \<open>\<open>releaseIter\<close>; \<open>once\<close> is true when the \<open>sync.Once\<close> has run its function.\<close>

record releaseIter =
  child :: childIter
  releaseFn :: "index list"
  once :: bool

text \<open>\<open>releaseIter.Close\<close>; the error it returns is \<open>None\<close> for nil.\<close>

definition releaseIter_Close ::
  "releaseIter \<Rightarrow> event list \<Rightarrow> error option \<times> releaseIter \<times> event list" where
  "releaseIter_Close i tr =
     (if once i then (None, i, tr)
      else (None, i\<lparr>once := True\<rparr>, release (releaseFn i) tr))"

definition releaseIter_Next ::
  "releaseIter \<Rightarrow> event list \<Rightarrow> (error + row) \<times> releaseIter \<times> event list" where
  "releaseIter_Next i tr =
     (case childNext (child i) of
        (Inl err, c') \<Rightarrow>
          (case releaseIter_Close (i\<lparr>child := c'\<rparr>) tr of
             (_, i', tr') \<Rightarrow> (Inl err, i', tr'))
      | (Inr row, c') \<Rightarrow> (Inr row, i\<lparr>child := c'\<rparr>, tr))"


text \<open>
  A consumer of the row sequence: any finite sequence of \<open>Next\<close> and \<open>Close\<close> calls, and
  what each call returned.
\<close>

datatype call = CallNext | CallClose

datatype returned = Row row | Failed error | Closed "error option"

fun consume ::
  "call list \<Rightarrow> releaseIter \<Rightarrow> event list \<Rightarrow> returned list \<times> releaseIter \<times> event list" where
  "consume [] i tr = ([], i, tr)"
| "consume (CallNext # calls) i tr =
     (case releaseIter_Next i tr of
        (Inl err, i', tr') \<Rightarrow>
          (case consume calls i' tr' of (rs, i'', tr'') \<Rightarrow> (Failed err # rs, i'', tr''))
      | (Inr row, i', tr') \<Rightarrow>
          (case consume calls i' tr' of (rs, i'', tr'') \<Rightarrow> (Row row # rs, i'', tr'')))"
| "consume (CallClose # calls) i tr =
     (case releaseIter_Close i tr of
        (err, i', tr') \<Rightarrow>
          (case consume calls i' tr' of (rs, i'', tr'') \<Rightarrow> (Closed err # rs, i'', tr'')))"

fun releasing :: "returned \<Rightarrow> bool" where
  "releasing (Row row) = False"
| "releasing (Failed err) = True"
| "releasing (Closed err) = True"

section \<open>Field index fixup: correctness\<close>

lemma findColumn_None:
  "findColumn i schema n t = None \<longleftrightarrow> \<not> (\<exists>col \<in> set schema. matches t n col)"
  by (induction schema arbitrary: i) (auto simp: matches_def)

lemma findColumn_Some:
  "\<exists>col \<in> set schema. matches t n col \<Longrightarrow>
   findColumn i schema n t = Some (i + firstMatch schema t n)"
proof (induction schema arbitrary: i)
  case Nil
  then show ?case by simp
next
  case (Cons c cs)
  show ?case
  proof (cases "matches t n c")
    case True
    then show ?thesis by (simp add: matches_def firstMatch_def)
  next
    case False
    with Cons.prems have "\<exists>col \<in> set cs. matches t n col" by auto
    from Cons.IH[OF this, of "Suc i"] False show ?thesis
      by (simp add: matches_def firstMatch_def)
  qed
qed

lemma firstMatch_less:
  "\<exists>col \<in> set schema. matches t n col \<Longrightarrow> firstMatch schema t n < length schema"
  by (induction schema) (auto simp: firstMatch_def)

lemma firstMatch_matches:
  "\<exists>col \<in> set schema. matches t n col \<Longrightarrow> matches t n (schema ! firstMatch schema t n)"
  by (induction schema) (auto simp: firstMatch_def)

lemma firstMatch_least:
  "k < firstMatch schema t n \<Longrightarrow> \<not> matches t n (schema ! k)"
  unfolding firstMatch_def
  using nth_mem set_takeWhileD takeWhile_nth by (metis (mono_tags, lifting))


lemma fix_ok:
  "(\<forall>ref \<in> set (fieldRefs e). resolvable schema ref) \<Longrightarrow>
     TransformUp (fixField schema) e = Inr (reindex schema e)"
  "(\<forall>e \<in> set es. \<forall>ref \<in> set (fieldRefs e). resolvable schema ref) \<Longrightarrow>
     TransformUps (fixField schema) es = Inr (map (reindex schema) es)"
proof (induction "fixField schema" e and "fixField schema" es rule: TransformUp_TransformUps.induct)
  case (1 i ty t n nu)
  then show ?case by (simp add: resolvable_def findColumn_Some)
qed auto

lemma fix_fail:
  "\<not> (\<forall>ref \<in> set (fieldRefs e). resolvable schema ref) \<Longrightarrow>
     \<exists>ref \<in> set (fieldRefs e). \<not> resolvable schema ref \<and> TransformUp (fixField schema) e = Inl (ErrFieldMissing (snd ref))"
  "\<not> (\<forall>e \<in> set es. \<forall>ref \<in> set (fieldRefs e). resolvable schema ref) \<Longrightarrow>
     \<exists>e \<in> set es. \<exists>ref \<in> set (fieldRefs e). \<not> resolvable schema ref \<and> TransformUps (fixField schema) es = Inl (ErrFieldMissing (snd ref))"
proof (induction "fixField schema" e and "fixField schema" es rule: TransformUp_TransformUps.induct)
  case (1 i ty t n nu)
  then show ?case using findColumn_None[of 0 schema n t] by (simp add: resolvable_def)
next
  case (2 l r)
  show ?case
  proof (cases "\<forall>ref \<in> set (fieldRefs l). resolvable schema ref")
    case True
    then have l: "TransformUp (fixField schema) l = Inr (reindex schema l)"
      by (rule fix_ok(1))
    from True "2.prems" have "\<not> (\<forall>ref \<in> set (fieldRefs r). resolvable schema ref)"
      by auto
    from "2.hyps"(2)[OF l this] obtain ref where
      "ref \<in> set (fieldRefs r)" "\<not> resolvable schema ref"
      "TransformUp (fixField schema) r = Inl (ErrFieldMissing (snd ref))"
      by blast
    with l show ?thesis by auto
  next
    case False
    from "2.hyps"(1)[OF this] obtain ref where
      "ref \<in> set (fieldRefs l)" "\<not> resolvable schema ref"
      "TransformUp (fixField schema) l = Inl (ErrFieldMissing (snd ref))"
      by blast
    then show ?thesis by auto
  qed
next
  case (3 tag es)
  then have "\<not> (\<forall>e \<in> set es. \<forall>ref \<in> set (fieldRefs e). resolvable schema ref)"
    by auto
  from "3.hyps"[OF this] obtain e' ref where
    "e' \<in> set es" "ref \<in> set (fieldRefs e')" "\<not> resolvable schema ref"
    "TransformUps (fixField schema) es = Inl (ErrFieldMissing (snd ref))"
    by blast
  then show ?case by force
next
  case 4
  then show ?case by simp
next
  case (5 e es)
  show ?case
  proof (cases "\<forall>ref \<in> set (fieldRefs e). resolvable schema ref")
    case True
    then have e: "TransformUp (fixField schema) e = Inr (reindex schema e)"
      by (rule fix_ok(1))
    from True "5.prems" have "\<not> (\<forall>e \<in> set es. \<forall>ref \<in> set (fieldRefs e). resolvable schema ref)"
      by auto
    from "5.hyps"(2)[OF e this] obtain e' ref where
      "e' \<in> set es" "ref \<in> set (fieldRefs e')" "\<not> resolvable schema ref"
      "TransformUps (fixField schema) es = Inl (ErrFieldMissing (snd ref))"
      by blast
    with e show ?thesis by auto
  next
    case False
    from "5.hyps"(1)[OF this] obtain ref where
      "ref \<in> set (fieldRefs e)" "\<not> resolvable schema ref"
      "TransformUp (fixField schema) e = Inl (ErrFieldMissing (snd ref))"
      by blast
    then show ?thesis by auto
  qed
qed

text \<open>
  Claim C5. For every schema and every expression, \<open>fixFieldIndexes\<close> succeeds exactly
  when every field reference of the expression matches some column of the schema by
  (name, source) equality. On success the result is the expression with every reference
  carrying the position of the first matching column, its type, table, name and
  nullability kept and nothing else changed; that position is inside the schema, its
  column matches, and no earlier column does. Otherwise the result is the field-missing
  error of a reference that matches no column.
\<close>

theorem fixFieldIndexes_first_match_or_missing:
  "(if \<forall>ref \<in> set (fieldRefs e). resolvable schema ref
    then fixFieldIndexes schema e = Inr (reindex schema e)
    else \<exists>ref \<in> set (fieldRefs e). \<not> resolvable schema ref \<and>
           fixFieldIndexes schema e = Inl (ErrFieldMissing (snd ref)))
   \<and> (\<forall>t n. resolvable schema (t, n) \<longrightarrow>
          firstMatch schema t n < length schema
        \<and> matches t n (schema ! firstMatch schema t n)
        \<and> (\<forall>k < firstMatch schema t n. \<not> matches t n (schema ! k)))"
proof -
  have main: "if \<forall>ref \<in> set (fieldRefs e). resolvable schema ref
    then fixFieldIndexes schema e = Inr (reindex schema e)
    else \<exists>ref \<in> set (fieldRefs e). \<not> resolvable schema ref \<and>
           fixFieldIndexes schema e = Inl (ErrFieldMissing (snd ref))"
    using fix_ok(1)[of e schema] fix_fail(1)[of e schema]
    by (simp add: fixFieldIndexes_def)
  have first: "firstMatch schema t n < length schema
        \<and> matches t n (schema ! firstMatch schema t n)
        \<and> (\<forall>k < firstMatch schema t n. \<not> matches t n (schema ! k))"
    if "resolvable schema (t, n)" for t n
  proof -
    from that have ex: "\<exists>col \<in> set schema. matches t n col"
      by (simp add: resolvable_def)
    show ?thesis
      using firstMatch_less[OF ex] firstMatch_matches[OF ex] firstMatch_least[of _ schema t n]
      by blast
  qed
  from main first show ?thesis by blast
qed

theorem fixFieldIndexes_first_match_or_missing_witness:
  "fixFieldIndexes
     [\<lparr>Name = ''a'', Source = ''t''\<rparr>, \<lparr>Name = ''b'', Source = ''t''\<rparr>, \<lparr>Name = ''b'', Source = ''t''\<rparr>]
     (And (GetField 7 ''INT'' ''t'' ''b'' True) (Other ''lit'' []))
   = Inr (And (GetField 1 ''INT'' ''t'' ''b'' True) (Other ''lit'' []))
   \<and> fixFieldIndexes
     [\<lparr>Name = ''a'', Source = ''t''\<rparr>]
     (Other ''eq'' [GetField 0 ''INT'' ''u'' ''a'' False, GetField 0 ''INT'' ''t'' ''a'' False])
   = Inl (ErrFieldMissing ''a'')"
  using fixFieldIndexes_first_match_or_missing
    [of "And (GetField 7 ''INT'' ''t'' ''b'' True) (Other ''lit'' [])"
        "[\<lparr>Name = ''a'', Source = ''t''\<rparr>, \<lparr>Name = ''b'', Source = ''t''\<rparr>, \<lparr>Name = ''b'', Source = ''t''\<rparr>]"]
    fixFieldIndexes_first_match_or_missing
    [of "Other ''eq'' [GetField 0 ''INT'' ''u'' ''a'' False, GetField 0 ''INT'' ''t'' ''a'' False]"
        "[\<lparr>Name = ''a'', Source = ''t''\<rparr>]"]
  by (simp add: resolvable_def matches_def firstMatch_def)

section \<open>The releaser: exactly-once release\<close>


lemma close_steps:
  "releaseIter_Close i tr = (err, i', tr') \<Longrightarrow>
     err = None \<and> child i' = child i \<and> releaseFn i' = releaseFn i \<and> once i'
     \<and> tr' = (if once i then tr else release (releaseFn i) tr)"
  by (auto simp: releaseIter_Close_def split: if_splits)

lemma next_steps:
  assumes "releaseIter_Next i tr = (r, i', tr')"
  shows "r = answers (child i) (position (child i))
     \<and> child i' = (child i)\<lparr>position := Suc (position (child i))\<rparr>
     \<and> releaseFn i' = releaseFn i
     \<and> once i' = (once i \<or> isl r)
     \<and> tr' = (if \<not> once i \<and> isl r then release (releaseFn i) tr else tr)"
proof (cases "answers (child i) (position (child i))")
  case (Inl err)
  then have "releaseIter_Next i tr =
      (Inl err, i\<lparr>child := (child i)\<lparr>position := Suc (position (child i))\<rparr>, once := True\<rparr>,
       if once i then tr else release (releaseFn i) tr)"
    by (cases "once i") (simp_all add: releaseIter_Next_def releaseIter_Close_def childNext_def)
  with assms have "r = Inl err"
    "i' = i\<lparr>child := (child i)\<lparr>position := Suc (position (child i))\<rparr>, once := True\<rparr>"
    "tr' = (if once i then tr else release (releaseFn i) tr)"
    by simp_all
  with Inl show ?thesis by simp
next
  case (Inr row)
  then have "releaseIter_Next i tr =
      (Inr row, i\<lparr>child := (child i)\<lparr>position := Suc (position (child i))\<rparr>\<rparr>, tr)"
    by (simp add: releaseIter_Next_def childNext_def)
  with assms have "r = Inr row"
    "i' = i\<lparr>child := (child i)\<lparr>position := Suc (position (child i))\<rparr>\<rparr>"
    "tr' = tr"
    by simp_all
  with Inr show ?thesis by simp
qed

lemma consume_steps:
  "consume calls i tr = (rs, i', tr') \<Longrightarrow>
     releaseFn i' = releaseFn i
     \<and> once i' = (once i \<or> (\<exists>r \<in> set rs. releasing r))
     \<and> closeCalls (child i') = closeCalls (child i)
     \<and> (\<forall>err. Closed err \<in> set rs \<longrightarrow> err = None)
     \<and> tr' = (if \<not> once i \<and> (\<exists>r \<in> set rs. releasing r) then release (releaseFn i) tr else tr)"
proof (induction calls arbitrary: i tr rs i' tr')
  case Nil
  then show ?case by auto
next
  case (Cons c calls)
  show ?case
  proof (cases c)
    case CallNext
    obtain r i1 tr1 where n: "releaseIter_Next i tr = (r, i1, tr1)"
      by (cases "releaseIter_Next i tr") auto
    obtain rs2 i2 tr2 where c2: "consume calls i1 tr1 = (rs2, i2, tr2)"
      by (cases "consume calls i1 tr1") auto
    note N = next_steps[OF n] and I = Cons.IH[OF c2]
    show ?thesis
    proof (cases r)
      case (Inl e)
      with Cons.prems CallNext n c2 have eq: "rs = Failed e # rs2" "i' = i2" "tr' = tr2"
        by auto
      from N I Inl show ?thesis unfolding eq by simp
    next
      case (Inr w)
      with Cons.prems CallNext n c2 have eq: "rs = Row w # rs2" "i' = i2" "tr' = tr2"
        by auto
      from N I Inr show ?thesis unfolding eq by simp
    qed
  next
    case CallClose
    obtain e i1 tr1 where n: "releaseIter_Close i tr = (e, i1, tr1)"
      by (cases "releaseIter_Close i tr") auto
    obtain rs2 i2 tr2 where c2: "consume calls i1 tr1 = (rs2, i2, tr2)"
      by (cases "consume calls i1 tr1") auto
    from Cons.prems CallClose n c2 have eq: "rs = Closed e # rs2" "i' = i2" "tr' = tr2"
      by auto
    from close_steps[OF n] Cons.IH[OF c2] show ?thesis
      unfolding eq by (cases "once i") auto
  qed
qed



text \<open>
  Claim C10. \<open>Close\<close> of the releasing row sequence returns nil, and neither \<open>Close\<close> nor
  \<open>Next\<close>, failing or not, closes the wrapped row iterator: \<open>Close\<close> leaves it as it is,
  \<open>Next\<close> only advances it, and after any sequence of calls its count of \<open>Close\<close> calls is
  what it was and every \<open>Close\<close> of the wrapper has returned nil.
\<close>

theorem close_is_nil_and_child_is_never_closed:
  "fst (releaseIter_Close i tr) = None
   \<and> child (fst (snd (releaseIter_Close i tr))) = child i
   \<and> child (fst (snd (releaseIter_Next i tr))) = (child i)\<lparr>position := Suc (position (child i))\<rparr>
   \<and> (\<exists>rs i' tr'.
         consume calls i tr = (rs, i', tr')
       \<and> closeCalls (child i') = closeCalls (child i)
       \<and> (\<forall>err. Closed err \<in> set rs \<longrightarrow> err = None))"
proof -
  obtain e i1 tr1 where cl: "releaseIter_Close i tr = (e, i1, tr1)"
    by (cases "releaseIter_Close i tr") auto
  obtain r i2 tr2 where nx: "releaseIter_Next i tr = (r, i2, tr2)"
    by (cases "releaseIter_Next i tr") auto
  obtain rs i' tr' where c: "consume calls i tr = (rs, i', tr')"
    by (cases "consume calls i tr") auto
  from close_steps[OF cl] next_steps[OF nx] consume_steps[OF c] cl nx c
  show ?thesis by simp
qed

theorem close_is_nil_and_child_is_never_closed_witness:
  "consume [CallNext, CallClose, CallClose]
       \<lparr>child = \<lparr>answers = (\<lambda>k. Inl (ErrOther ''disk'')), position = 0, closeCalls = 0\<rparr>,
        releaseFn = [''idx''], once = False\<rparr> []
   = ([Failed (ErrOther ''disk''), Closed None, Closed None],
      \<lparr>child = \<lparr>answers = (\<lambda>k. Inl (ErrOther ''disk'')), position = 1, closeCalls = 0\<rparr>,
        releaseFn = [''idx''], once = True\<rparr>,
      [Release, ReleaseIndex ''idx''])"
  using close_is_nil_and_child_is_never_closed
    [of "\<lparr>child = \<lparr>answers = (\<lambda>k. Inl (ErrOther ''disk'')), position = 0, closeCalls = 0\<rparr>,
          releaseFn = [''idx''], once = False\<rparr>" "[]" "[CallNext, CallClose, CallClose]"]
  by (simp add: releaseIter_Next_def releaseIter_Close_def childNext_def release_def)

text \<open>
  Claim C8. An unresolved-table placeholder is never resolved, has no children and no
  schema, and its \<open>RowIter\<close> returns the unresolved-table error and no row sequence in
  every context.
\<close>

theorem unresolved_table_placeholder:
  "Resolved (UnresolvedTable name) = False
   \<and> Children (UnresolvedTable name) = []
   \<and> Schema (UnresolvedTable name) = []
   \<and> (UnresolvedTable_RowIter ctx name :: error + childIter) = Inl ErrUnresolvedTable"
  by (simp add: UnresolvedTable_RowIter_def)

text \<open>
  Claim C9. On a node that is not resolved, and on an insert or create-index statement,
  the pass returns the node it was given and no error; the index assignment step is not
  called and nothing is released.
\<close>

theorem pushdown_leaves_unresolved_and_statements:
  "(\<not> Resolved n \<longrightarrow> pushdown assignIndexes n tr = (Inr n, tr))
   \<and> pushdown assignIndexes (InsertInto dst src cols) tr = (Inr (InsertInto dst src cols), tr)
   \<and> pushdown assignIndexes (CreateIndex name t es) tr = (Inr (CreateIndex name t es), tr)"
  by (simp add: pushdown_def)

theorem pushdown_leaves_unresolved_and_statements_witness:
  "pushdown (\<lambda>n. Inl (ErrOther ''no catalog''))
     (Filter (GetField 0 ''INT'' ''t'' ''a'' False) (UnresolvedTable ''t'')) []
   = (Inr (Filter (GetField 0 ''INT'' ''t'' ''a'' False) (UnresolvedTable ''t'')), [])"
  using pushdown_leaves_unresolved_and_statements
    [of "Filter (GetField 0 ''INT'' ''t'' ''a'' False) (UnresolvedTable ''t'')"
        "\<lambda>n. Inl (ErrOther ''no catalog'')" "[]"]
  by simp

section \<open>Column usage\<close>

lemma firstOccurrences_snoc:
  "firstOccurrences (xs @ [x]) =
     (if x \<in> set xs then firstOccurrences xs else firstOccurrences xs @ [x])"
proof (induction xs rule: firstOccurrences.induct)
  case 1
  then show ?case by simp
next
  case (2 y ys)
  show ?case
  proof (cases "x = y")
    case True
    then show ?thesis by simp
  next
    case False
    then have "firstOccurrences ((y # ys) @ [x]) =
        y # firstOccurrences (filter (\<lambda>z. z \<noteq> y) ys @ [x])"
      by simp
    also have "\<dots> = y # (if x \<in> set ys then firstOccurrences (filter (\<lambda>z. z \<noteq> y) ys)
                        else firstOccurrences (filter (\<lambda>z. z \<noteq> y) ys) @ [x])"
      using "2.IH" False by simp
    finally show ?thesis using False by simp
  qed
qed

lemma set_firstOccurrences: "set (firstOccurrences xs) = set xs"
  by (induction xs rule: firstOccurrences.induct) auto

lemma distinct_firstOccurrences: "distinct (firstOccurrences xs)"
  by (induction xs rule: firstOccurrences.induct) (auto simp: set_firstOccurrences)

lemma visitedRefs_snoc: "visitedRefs (p @ [e]) = visitedRefs p @ fieldRef e"
  by (simp add: visitedRefs_def)

lemma findColumn_visit_inv:
  assumes "tableFields cs = set (visitedRefs p)"
    and "\<And>t. fieldsByTable cs t =
           map snd (filter (\<lambda>r. fst r = t) (firstOccurrences (visitedRefs p)))"
  shows "tableFields (findColumn_visit cs e) = set (visitedRefs (p @ [e]))"
    and "fieldsByTable (findColumn_visit cs e) t =
           map snd (filter (\<lambda>r. fst r = t) (firstOccurrences (visitedRefs (p @ [e]))))"
proof -
  show "tableFields (findColumn_visit cs e) = set (visitedRefs (p @ [e]))"
    using assms(1) by (cases e) (auto simp: visitedRefs_snoc)
  show "fieldsByTable (findColumn_visit cs e) t =
           map snd (filter (\<lambda>r. fst r = t) (firstOccurrences (visitedRefs (p @ [e]))))"
  proof (cases e)
    case (GetField i ty t' n nu)
    then show ?thesis
      using assms by (simp add: visitedRefs_snoc firstOccurrences_snoc)
  qed (simp_all add: assms(2) visitedRefs_snoc)
qed

lemma foldl_findColumn_visit_inv:
  assumes "tableFields cs = set (visitedRefs p)"
    and "\<And>t. fieldsByTable cs t =
           map snd (filter (\<lambda>r. fst r = t) (firstOccurrences (visitedRefs p)))"
  shows "tableFields (foldl findColumn_visit cs es) = set (visitedRefs (p @ es))
       \<and> (\<forall>t. fieldsByTable (foldl findColumn_visit cs es) t =
             map snd (filter (\<lambda>r. fst r = t) (firstOccurrences (visitedRefs (p @ es)))))"
  using assms
proof (induction es arbitrary: cs p)
  case Nil
  then show ?case by simp
next
  case (Cons e es)
  have "tableFields (foldl findColumn_visit (findColumn_visit cs e) es) =
          set (visitedRefs ((p @ [e]) @ es))
       \<and> (\<forall>t. fieldsByTable (foldl findColumn_visit (findColumn_visit cs e) es) t =
             map snd (filter (\<lambda>r. fst r = t) (firstOccurrences (visitedRefs ((p @ [e]) @ es)))))"
    by (rule Cons.IH) (rule findColumn_visit_inv[OF Cons.prems])+
  then show ?case by simp
qed

lemma distinct_columns_of_table:
  "distinct (map snd (filter (\<lambda>r. fst r = t) (firstOccurrences rs)))"
proof -
  have "inj_on snd (set (filter (\<lambda>r. fst r = t) (firstOccurrences rs)))"
    by (auto simp: inj_on_def)
  then show ?thesis
    by (simp add: distinct_map distinct_firstOccurrences)
qed

text \<open>
  The traversal of an expression visits its field references in the order in which they
  stand in it.
\<close>

lemma visitedRefs_append: "visitedRefs (xs @ ys) = visitedRefs xs @ visitedRefs ys"
  by (simp add: visitedRefs_def)

lemma visitedRefs_Walk: "visitedRefs (Walk e) = fieldRefs e"
proof (induction e)
  case (GetField i ty t n nu)
  then show ?case by (simp add: visitedRefs_def)
next
  case (And l r)
  then show ?case
    using visitedRefs_append[of "[And l r]" "Walk l @ Walk r"]
    by (simp add: visitedRefs_append) (simp add: visitedRefs_def)
next
  case (Other tag es)
  have "visitedRefs (concat (map Walk es)) = concat (map fieldRefs es)"
    using Other by (induction es) (simp_all add: visitedRefs_append, simp add: visitedRefs_def)
  then show ?case
    using visitedRefs_append[of "[Other tag es]" "concat (map Walk es)"]
    by simp (simp add: visitedRefs_def)
qed

text \<open>
  Claim C7. The column collection, run over the expressions in the order in which they
  are visited, records for every table the column names of the field references with
  that table: the (table, column) pairs are taken in visiting order, the first occurrence
  of each pair is kept and every later one is dropped, so the names of one table are
  distinct and in first-occurrence order. The set of recorded pairs is the set of all
  pairs visited.
\<close>

theorem findColumns_first_occurrences:
  "fieldsByTable (findColumns visited) t =
     map snd (filter (\<lambda>r. fst r = t) (firstOccurrences (visitedRefs visited)))
   \<and> distinct (fieldsByTable (findColumns visited) t)
   \<and> set (fieldsByTable (findColumns visited) t) = {n. (t, n) \<in> set (visitedRefs visited)}
   \<and> tableFields (findColumns visited) = set (visitedRefs visited)"
proof -
  have "tableFields (foldl findColumn_visit noColumns visited) = set (visitedRefs ([] @ visited))
       \<and> (\<forall>t. fieldsByTable (foldl findColumn_visit noColumns visited) t =
             map snd (filter (\<lambda>r. fst r = t) (firstOccurrences (visitedRefs ([] @ visited)))))"
    by (rule foldl_findColumn_visit_inv) (simp_all add: noColumns_def visitedRefs_def)
  then have eq: "fieldsByTable (findColumns visited) t =
     map snd (filter (\<lambda>r. fst r = t) (firstOccurrences (visitedRefs visited)))"
    and tf: "tableFields (findColumns visited) = set (visitedRefs visited)"
    by (simp_all add: findColumns_def)
  have "set (fieldsByTable (findColumns visited) t) = {n. (t, n) \<in> set (visitedRefs visited)}"
    unfolding eq by (force simp: set_firstOccurrences)
  with eq tf show ?thesis
    by (simp add: distinct_columns_of_table)
qed

theorem findColumns_first_occurrences_witness:
  "fieldsByTable (findColumns (InspectExpressions
      (Project [GetField 0 ''INT'' ''t'' ''b'' False, GetField 1 ''INT'' ''u'' ''x'' False]
        (Filter (And (Other ''='' [GetField 1 ''INT'' ''t'' ''a'' False, Other ''1'' []])
                     (Other ''<'' [GetField 0 ''INT'' ''t'' ''b'' False, Other ''2'' []]))
           (UnresolvedTable ''t''))))) ''t''
   = [''b'', ''a'']"
  using findColumns_first_occurrences
    [of "InspectExpressions
      (Project [GetField 0 ''INT'' ''t'' ''b'' False, GetField 1 ''INT'' ''u'' ''x'' False]
        (Filter (And (Other ''='' [GetField 1 ''INT'' ''t'' ''a'' False, Other ''1'' []])
                     (Other ''<'' [GetField 0 ''INT'' ''t'' ''b'' False, Other ''2'' []]))
           (UnresolvedTable ''t'')))" "''t''"]
  by (simp add: InspectExpressions_def visitedRefs_def)

section \<open>The base-table case\<close>

lemma fixFieldIndexesOnExpressions_ok:
  "\<forall>e \<in> set es. \<forall>ref \<in> set (fieldRefs e). resolvable schema ref \<Longrightarrow>
     fixFieldIndexesOnExpressions schema es = Inr (map (reindex schema) es)"
  by (induction es) (simp_all add: fixFieldIndexes_def fix_ok(1))

lemma fixFieldIndexesOnExpressions_fail:
  "\<not> (\<forall>e \<in> set es. \<forall>ref \<in> set (fieldRefs e). resolvable schema ref) \<Longrightarrow>
     \<exists>name. fixFieldIndexesOnExpressions schema es = Inl (ErrFieldMissing name)"
proof (induction es)
  case Nil
  then show ?case by simp
next
  case (Cons e es)
  show ?case
  proof (cases "\<forall>ref \<in> set (fieldRefs e). resolvable schema ref")
    case True
    with Cons.prems have "\<not> (\<forall>e \<in> set es. \<forall>ref \<in> set (fieldRefs e). resolvable schema ref)"
      by simp
    from Cons.IH[OF this] True show ?thesis
      by (auto simp: fixFieldIndexes_def fix_ok(1))
  next
    case False
    from fix_fail(1)[OF this] show ?thesis
      by (auto simp: fixFieldIndexes_def)
  qed
qed

text \<open>
  Claim C3. On a base table with the filter capability, the filters the table reports as
  handled are fixed up against the schema of the table as the rewrite found it, and the
  result of that fixup is what \<open>WithFilters\<close> installs; the projection and the index
  lookup are applied afterwards, to the table \<open>WithFilters\<close> returned, so a projection
  that prunes the row shape comes too late to change the indexes of the installed
  filters. The handled filters are recorded as reported, before the fixup. When a
  handled filter has a reference that the schema does not hold, the rewrite of the table
  fails with the field-missing error.
\<close>

theorem handled_filters_fixed_on_original_schema:
  assumes "FilteredTable tbl = Some (HandledFilters, WithFilters)"
    and "handled = HandledFilters (fs (tableName tbl))"
    and "s' = s\<lparr>handledFilters := handledFilters s @ handled\<rparr>"
  shows "((\<forall>e \<in> set handled. \<forall>ref \<in> set (fieldRefs e). resolvable (tableSchema tbl) ref) \<longrightarrow>
            transformTable fs used ixs tbl s =
              (let installed = WithFilters (map (reindex (tableSchema tbl)) handled);
                   projected = pushProjection used (tableName tbl) installed;
                   indexed = pushIndex ixs (tableName tbl) projected s'
               in (Inr (ResolvedTable (fst indexed)), snd indexed)))
       \<and> (\<not> (\<forall>e \<in> set handled. \<forall>ref \<in> set (fieldRefs e). resolvable (tableSchema tbl) ref) \<longrightarrow>
            (\<exists>name. transformTable fs used ixs tbl s = (Inl (ErrFieldMissing name), s')))"
proof (intro conjI impI)
  assume "\<forall>e \<in> set handled. \<forall>ref \<in> set (fieldRefs e). resolvable (tableSchema tbl) ref"
  from fixFieldIndexesOnExpressions_ok[OF this] assms
  show "transformTable fs used ixs tbl s =
              (let installed = WithFilters (map (reindex (tableSchema tbl)) handled);
                   projected = pushProjection used (tableName tbl) installed;
                   indexed = pushIndex ixs (tableName tbl) projected s'
               in (Inr (ResolvedTable (fst indexed)), snd indexed))"
    by (simp add: transformTable_def pushFilters_def Let_def split: prod.splits)
next
  assume "\<not> (\<forall>e \<in> set handled. \<forall>ref \<in> set (fieldRefs e). resolvable (tableSchema tbl) ref)"
  from fixFieldIndexesOnExpressions_fail[OF this] obtain name where
    "fixFieldIndexesOnExpressions (tableSchema tbl) handled = Inl (ErrFieldMissing name)"
    by blast
  with assms have "transformTable fs used ixs tbl s = (Inl (ErrFieldMissing name), s')"
    by (simp add: transformTable_def pushFilters_def Let_def)
  then show "\<exists>name. transformTable fs used ixs tbl s = (Inl (ErrFieldMissing name), s')"
    by blast
qed

text \<open>
  A table with columns \<open>a, b, c\<close> that handles every filter and prunes its schema to the
  projected columns: the filter on \<open>c\<close> is installed with index 2, the position of \<open>c\<close>
  before the projection, although the rewritten table has the schema \<open>a, c\<close>.
\<close>

theorem handled_filters_fixed_on_original_schema_witness:
  "transformTable
     (\<lambda>t. if t = ''t'' then [Other ''='' [GetField 0 ''INT'' ''t'' ''c'' False, Other ''1'' []]] else [])
     (\<lambda>t. if t = ''t'' then [''a'', ''c''] else [])
     Map.empty
     (Table ''t''
        [\<lparr>Name = ''a'', Source = ''t''\<rparr>, \<lparr>Name = ''b'', Source = ''t''\<rparr>, \<lparr>Name = ''c'', Source = ''t''\<rparr>]
        []
        (Some (\<lambda>filters. filters,
               \<lambda>filters. Table ''t''
                 [\<lparr>Name = ''a'', Source = ''t''\<rparr>, \<lparr>Name = ''b'', Source = ''t''\<rparr>, \<lparr>Name = ''c'', Source = ''t''\<rparr>]
                 filters None
                 (Some (\<lambda>cols. Table ''t''
                    (filter (\<lambda>col. Name col \<in> set cols)
                       [\<lparr>Name = ''a'', Source = ''t''\<rparr>, \<lparr>Name = ''b'', Source = ''t''\<rparr>, \<lparr>Name = ''c'', Source = ''t''\<rparr>])
                    filters None None None))
                 None))
        None None)
     \<lparr>handledFilters = [], queryIndexes = []\<rparr>
   = (Inr (ResolvedTable (Table ''t''
        [\<lparr>Name = ''a'', Source = ''t''\<rparr>, \<lparr>Name = ''c'', Source = ''t''\<rparr>]
        [Other ''='' [GetField 2 ''INT'' ''t'' ''c'' False, Other ''1'' []]]
        None None None)),
      \<lparr>handledFilters = [Other ''='' [GetField 0 ''INT'' ''t'' ''c'' False, Other ''1'' []]],
       queryIndexes = []\<rparr>)"
  using handled_filters_fixed_on_original_schema
    [of "Table ''t''
        [\<lparr>Name = ''a'', Source = ''t''\<rparr>, \<lparr>Name = ''b'', Source = ''t''\<rparr>, \<lparr>Name = ''c'', Source = ''t''\<rparr>]
        []
        (Some (\<lambda>filters. filters,
               \<lambda>filters. Table ''t''
                 [\<lparr>Name = ''a'', Source = ''t''\<rparr>, \<lparr>Name = ''b'', Source = ''t''\<rparr>, \<lparr>Name = ''c'', Source = ''t''\<rparr>]
                 filters None
                 (Some (\<lambda>cols. Table ''t''
                    (filter (\<lambda>col. Name col \<in> set cols)
                       [\<lparr>Name = ''a'', Source = ''t''\<rparr>, \<lparr>Name = ''b'', Source = ''t''\<rparr>, \<lparr>Name = ''c'', Source = ''t''\<rparr>])
                    filters None None None))
                 None))
        None None"
        "\<lambda>filters. filters"
        "\<lambda>filters. Table ''t''
                 [\<lparr>Name = ''a'', Source = ''t''\<rparr>, \<lparr>Name = ''b'', Source = ''t''\<rparr>, \<lparr>Name = ''c'', Source = ''t''\<rparr>]
                 filters None
                 (Some (\<lambda>cols. Table ''t''
                    (filter (\<lambda>col. Name col \<in> set cols)
                       [\<lparr>Name = ''a'', Source = ''t''\<rparr>, \<lparr>Name = ''b'', Source = ''t''\<rparr>, \<lparr>Name = ''c'', Source = ''t''\<rparr>])
                    filters None None None))
                 None"
        "[Other ''='' [GetField 0 ''INT'' ''t'' ''c'' False, Other ''1'' []]]"
        "\<lambda>t. if t = ''t'' then [Other ''='' [GetField 0 ''INT'' ''t'' ''c'' False, Other ''1'' []]] else []"
        "\<lparr>handledFilters = [Other ''='' [GetField 0 ''INT'' ''t'' ''c'' False, Other ''1'' []]],
          queryIndexes = []\<rparr>"
        "\<lparr>handledFilters = [], queryIndexes = []\<rparr>"
        "\<lambda>t. if t = ''t'' then [''a'', ''c''] else []"
        Map.empty]
  by (simp add: resolvable_def matches_def firstMatch_def pushProjection_def pushIndex_def)

section \<open>The filter case\<close>

lemma splitExpression_not_And: "x \<in> set (splitExpression e) \<Longrightarrow> x \<noteq> And l r"
  by (induction e rule: splitExpression.induct) auto

lemma splitExpression_id: "(\<And>l r. e \<noteq> And l r) \<Longrightarrow> splitExpression e = [e]"
  by (cases e) auto

lemma splitExpression_foldl_And:
  "\<forall>x \<in> set es. \<forall>l r. x \<noteq> And l r \<Longrightarrow>
     splitExpression (foldl And e es) = splitExpression e @ es"
proof (induction es arbitrary: e)
  case Nil
  then show ?case by simp
next
  case (Cons x es)
  then have "splitExpression (foldl And (And e x) es) = splitExpression (And e x) @ es"
    by simp
  moreover have "splitExpression x = [x]"
    using Cons.prems by (intro splitExpression_id) simp
  ultimately show ?case by simp
qed

lemma splitExpression_JoinAnd:
  assumes "getUnhandledFilters (splitExpression e) handled = u # us"
  shows "splitExpression (JoinAnd u us) = u # us"
proof -
  have "\<forall>x \<in> set (u # us). \<forall>l r. x \<noteq> And l r"
    using splitExpression_not_And[of _ e] assms[symmetric]
    by (auto simp: getUnhandledFilters_def)
  then show ?thesis
    using splitExpression_foldl_And[of us u] splitExpression_id[of u]
    by (simp add: JoinAnd_def)
qed

lemma splitExpression_nonempty: "splitExpression e \<noteq> []"
  by (induction e rule: splitExpression.induct) auto

lemma getUnhandledFilters_none_handled: "getUnhandledFilters conjuncts [] = conjuncts"
  by (simp add: getUnhandledFilters_def)

text \<open>
  Claim C4. The rewrite of a filter node over the child \<open>c\<close> keeps, of the conjuncts of its
  predicate, those that are not in the list of handled filters, in their order. With no
  conjunct left the result is the child. Otherwise the result is a filter node over the
  same child whose predicate is a conjunction of exactly the remaining conjuncts, in
  their order: the remaining conjuncts joined by \<open>JoinAnd\<close> when some filter has been
  recorded as handled, and the predicate as it was when none has, since then every
  conjunct remains and the node is returned untouched. The rewrite never fails and does
  not change the list of handled filters.
\<close>

theorem filter_node_drops_handled_conjuncts:
  "getUnhandledFilters (splitExpression e) (handledFilters s) =
     filter (\<lambda>f. f \<notin> set (handledFilters s)) (splitExpression e)
   \<and> (getUnhandledFilters (splitExpression e) (handledFilters s) = [] \<longrightarrow>
         transform fs used ixs (Filter e c) s = (Inr c, s))
   \<and> (\<forall>u us. getUnhandledFilters (splitExpression e) (handledFilters s) = u # us \<longrightarrow>
         (\<exists>p. transform fs used ixs (Filter e c) s = (Inr (Filter p c), s)
            \<and> splitExpression p = u # us
            \<and> p = (if handledFilters s = [] then e else JoinAnd u us)))"
proof (intro conjI allI impI)
  show "getUnhandledFilters (splitExpression e) (handledFilters s) =
     filter (\<lambda>f. f \<notin> set (handledFilters s)) (splitExpression e)"
    by (simp add: getUnhandledFilters_def)
next
  assume none: "getUnhandledFilters (splitExpression e) (handledFilters s) = []"
  have "splitExpression e \<noteq> []"
    by (rule splitExpression_nonempty)
  with none have "handledFilters s \<noteq> []"
    by (auto simp: getUnhandledFilters_none_handled)
  with none show "transform fs used ixs (Filter e c) s = (Inr c, s)"
    by (simp add: transformFilter_def)
next
  fix u us
  assume rest: "getUnhandledFilters (splitExpression e) (handledFilters s) = u # us"
  show "\<exists>p. transform fs used ixs (Filter e c) s = (Inr (Filter p c), s)
            \<and> splitExpression p = u # us
            \<and> p = (if handledFilters s = [] then e else JoinAnd u us)"
  proof (cases "handledFilters s = []")
    case True
    with rest have "splitExpression e = u # us"
      by (simp add: getUnhandledFilters_none_handled)
    with True show ?thesis
      by (simp add: transformFilter_def)
  next
    case False
    with rest splitExpression_JoinAnd[OF rest] show ?thesis
      by (simp add: transformFilter_def)
  qed
qed

theorem filter_node_drops_handled_conjuncts_witness:
  "transform (\<lambda>t. []) (\<lambda>t. []) Map.empty
     (Filter (And (Other ''p'' []) (And (Other ''q'' []) (Other ''r'' []))) (UnresolvedTable ''t''))
     \<lparr>handledFilters = [Other ''q'' []], queryIndexes = []\<rparr>
   = (Inr (Filter (And (Other ''p'' []) (Other ''r'' [])) (UnresolvedTable ''t'')),
      \<lparr>handledFilters = [Other ''q'' []], queryIndexes = []\<rparr>)
   \<and> transform (\<lambda>t. []) (\<lambda>t. []) Map.empty
     (Filter (And (Other ''q'' []) (Other ''q'' [])) (UnresolvedTable ''t''))
     \<lparr>handledFilters = [Other ''q'' []], queryIndexes = []\<rparr>
   = (Inr (UnresolvedTable ''t''), \<lparr>handledFilters = [Other ''q'' []], queryIndexes = []\<rparr>)
   \<and> transform (\<lambda>t. []) (\<lambda>t. []) Map.empty
     (Filter (And (Other ''p'' []) (And (Other ''q'' []) (Other ''r'' []))) (UnresolvedTable ''t''))
     \<lparr>handledFilters = [], queryIndexes = []\<rparr>
   = (Inr (Filter (And (Other ''p'' []) (And (Other ''q'' []) (Other ''r'' []))) (UnresolvedTable ''t'')),
      \<lparr>handledFilters = [], queryIndexes = []\<rparr>)"
  using filter_node_drops_handled_conjuncts
    [of "And (Other ''p'' []) (And (Other ''q'' []) (Other ''r'' []))"
        "\<lparr>handledFilters = [Other ''q'' []], queryIndexes = []\<rparr>"
        "\<lambda>t. []" "\<lambda>t. []" Map.empty "UnresolvedTable ''t''"]
    filter_node_drops_handled_conjuncts
    [of "And (Other ''q'' []) (Other ''q'' [])"
        "\<lparr>handledFilters = [Other ''q'' []], queryIndexes = []\<rparr>"
        "\<lambda>t. []" "\<lambda>t. []" Map.empty "UnresolvedTable ''t''"]
    filter_node_drops_handled_conjuncts
    [of "And (Other ''p'' []) (And (Other ''q'' []) (Other ''r'' []))"
        "\<lparr>handledFilters = [], queryIndexes = []\<rparr>"
        "\<lambda>t. []" "\<lambda>t. []" Map.empty "UnresolvedTable ''t''"]
  by (simp add: getUnhandledFilters_def JoinAnd_def)

section \<open>The default case: the search over the schemas of the children\<close>











section \<open>The error exit of the pass\<close>

text \<open>
  The index handles recorded during the traversal are never dropped: the handles in the
  state the traversal leaves, on success or on failure, extend those it started from.
\<close>

lemma pushIndex_extends:
  "\<exists>more. queryIndexes (snd (pushIndex ixs name tbl s)) = queryIndexes s @ more"
  by (simp add: pushIndex_def split: option.splits)

lemma pushFilters_keeps:
  "queryIndexes (snd (pushFilters fs name schema tbl s)) = queryIndexes s"
  by (simp add: pushFilters_def Let_def split: option.splits prod.splits sum.splits)

lemma transformTable_extends:
  "\<exists>more. queryIndexes (snd (transformTable fs used ixs tbl s)) = queryIndexes s @ more"
proof -
  obtain r s' where pf: "pushFilters fs (tableName tbl) (tableSchema tbl) tbl s = (r, s')"
    by (cases "pushFilters fs (tableName tbl) (tableSchema tbl) tbl s") auto
  with pushFilters_keeps[of fs "tableName tbl" "tableSchema tbl" tbl s]
  have q: "queryIndexes s' = queryIndexes s"
    by simp
  show ?thesis
  proof (cases r)
    case (Inl err)
    with pf q show ?thesis by (simp add: transformTable_def)
  next
    case (Inr filtered)
    with pf q
      pushIndex_extends[of ixs "tableName tbl" "pushProjection used (tableName tbl) filtered" s']
    show ?thesis
      by (auto simp: transformTable_def split: prod.splits)
  qed
qed

lemma transform_extends:
  "\<exists>more. queryIndexes (snd (transform fs used ixs n s)) = queryIndexes s @ more"
  using transformTable_extends[of fs used ixs _ s]
  by (cases n) simp_all

lemma TransformUpNode_extends:
  "\<exists>more. queryIndexes (snd (TransformUpNode (transform fs used ixs) n s)) = queryIndexes s @ more"
proof (induction n arbitrary: s)
  case (ResolvedTable t)
  then show ?case using transform_extends[of fs used ixs "ResolvedTable t" s] by simp
next
  case (UnresolvedTable name)
  then show ?case by simp
next
  case (Filter e c)
  obtain r s' where c: "TransformUpNode (transform fs used ixs) c s = (r, s')"
    by (cases "TransformUpNode (transform fs used ixs) c s") auto
  with Filter[of s] show ?case
    by (cases r) auto
next
  case (Project es c)
  obtain r s' where c: "TransformUpNode (transform fs used ixs) c s = (r, s')"
    by (cases "TransformUpNode (transform fs used ixs) c s") auto
  with Project[of s] show ?case
    by (cases r) auto
next
  case (InnerJoin l r cond)
  obtain rl s1 where l: "TransformUpNode (transform fs used ixs) l s = (rl, s1)"
    by (cases "TransformUpNode (transform fs used ixs) l s") auto
  obtain rr s2 where r: "TransformUpNode (transform fs used ixs) r s1 = (rr, s2)"
    by (cases "TransformUpNode (transform fs used ixs) r s1") auto
  from InnerJoin(1)[of s] l obtain m1 where m1: "queryIndexes s1 = queryIndexes s @ m1"
    by auto
  from InnerJoin(2)[of s1] r obtain m2 where m2: "queryIndexes s2 = queryIndexes s1 @ m2"
    by auto
  from l r m1 m2 show ?case
    by (cases rl; cases rr) auto
next
  case (CrossJoin l r)
  obtain rl s1 where l: "TransformUpNode (transform fs used ixs) l s = (rl, s1)"
    by (cases "TransformUpNode (transform fs used ixs) l s") auto
  obtain rr s2 where r: "TransformUpNode (transform fs used ixs) r s1 = (rr, s2)"
    by (cases "TransformUpNode (transform fs used ixs) r s1") auto
  from CrossJoin(1)[of s] l obtain m1 where m1: "queryIndexes s1 = queryIndexes s @ m1"
    by auto
  from CrossJoin(2)[of s1] r obtain m2 where m2: "queryIndexes s2 = queryIndexes s1 @ m2"
    by auto
  from l r m1 m2 show ?case
    by (cases rl; cases rr) auto
next
  case (InsertInto dst src cols)
  obtain rl s1 where l: "TransformUpNode (transform fs used ixs) dst s = (rl, s1)"
    by (cases "TransformUpNode (transform fs used ixs) dst s") auto
  obtain rr s2 where r: "TransformUpNode (transform fs used ixs) src s1 = (rr, s2)"
    by (cases "TransformUpNode (transform fs used ixs) src s1") auto
  from InsertInto(1)[of s] l obtain m1 where m1: "queryIndexes s1 = queryIndexes s @ m1"
    by auto
  from InsertInto(2)[of s1] r obtain m2 where m2: "queryIndexes s2 = queryIndexes s1 @ m2"
    by auto
  from l r m1 m2 show ?case
    by (cases rl; cases rr) auto
next
  case (CreateIndex name t es)
  obtain r s' where c: "TransformUpNode (transform fs used ixs) t s = (r, s')"
    by (cases "TransformUpNode (transform fs used ixs) t s") auto
  with CreateIndex[of s] show ?case
    by (cases r) auto
next
  case (Releaser c idxs)
  obtain r s' where c: "TransformUpNode (transform fs used ixs) c s = (r, s')"
    by (cases "TransformUpNode (transform fs used ixs) c s") auto
  with Releaser[of s] show ?case
    by (cases r) auto
qed

lemma pushdown_wraps_when_indexes_taken:
  assumes "Resolved n" and "\<not> dontPushdown n" and "assignIndexes n = Inr ixs"
    and "TransformUpNode
           (transform (findFilters n) (fieldsByTable (findColumns (InspectExpressions n))) ixs)
           n \<lparr>handledFilters = [], queryIndexes = []\<rparr> = (Inr node, s)"
  shows "pushdown assignIndexes n tr =
           (Inr (if queryIndexes s = [] then node else Releaser node (queryIndexes s)),
            tr @ [AssignIndexes])"
  using assms by (simp add: pushdown_def)

text \<open>
  Claim C6. On a resolved node that is not an insert or create-index statement: when
  the index assignment step fails, the pass returns its error and no plan, and no handle
  has been recorded, so nothing is released; when the rewrite traversal fails, the pass
  returns the error of the traversal and no plan, and before it returns it calls the
  release function, which releases every index handle recorded up to the failure, each
  as often as it was recorded and in the order of recording. (The capability calls of
  a table return no error.)
\<close>

theorem pushdown_error_releases_recorded_indexes:
  assumes "Resolved n" and "\<not> dontPushdown n"
  shows "(assignIndexes n = Inl err \<longrightarrow>
            pushdown assignIndexes n tr = (Inl err, tr @ [AssignIndexes]))
       \<and> (assignIndexes n = Inr ixs
          \<and> TransformUpNode
               (transform (findFilters n) (fieldsByTable (findColumns (InspectExpressions n))) ixs)
               n \<lparr>handledFilters = [], queryIndexes = []\<rparr> = (Inl err, s)
          \<longrightarrow> pushdown assignIndexes n tr =
                (Inl err, tr @ AssignIndexes # Release # map ReleaseIndex (queryIndexes s)))"
  using assms by (simp add: pushdown_def release_def)

text \<open>
  A join of an indexable table \<open>t\<close>, to which the index assignment gives two handles, and a
  table \<open>u\<close>, on a condition that refers to a column of neither: the rewrite of \<open>t\<close>
  records the two handles, the rewrite of the join fails, and the pass releases both.
\<close>

theorem pushdown_error_releases_recorded_indexes_witness:
  "pushdown (\<lambda>n. Inr [''t'' \<mapsto> \<lparr>lookup = ''lk'', indexes = [''idx1'', ''idx2'']\<rparr>])
     (InnerJoin
        (ResolvedTable (Table ''t'' [\<lparr>Name = ''a'', Source = ''t''\<rparr>] [] None None
           (Some (\<lambda>lk. Table ''t'' [\<lparr>Name = ''a'', Source = ''t''\<rparr>] [] None None None))))
        (ResolvedTable (Table ''u'' [\<lparr>Name = ''b'', Source = ''u''\<rparr>] [] None None None))
        (GetField 0 ''INT'' ''v'' ''z'' False))
     []
   = (Inl (ErrFieldMissing ''z''),
      [AssignIndexes, Release, ReleaseIndex ''idx1'', ReleaseIndex ''idx2''])"
  using pushdown_error_releases_recorded_indexes
    [of "InnerJoin
        (ResolvedTable (Table ''t'' [\<lparr>Name = ''a'', Source = ''t''\<rparr>] [] None None
           (Some (\<lambda>lk. Table ''t'' [\<lparr>Name = ''a'', Source = ''t''\<rparr>] [] None None None))))
        (ResolvedTable (Table ''u'' [\<lparr>Name = ''b'', Source = ''u''\<rparr>] [] None None None))
        (GetField 0 ''INT'' ''v'' ''z'' False)"
        "\<lambda>n. Inr [''t'' \<mapsto> \<lparr>lookup = ''lk'', indexes = [''idx1'', ''idx2'']\<rparr>]"
        "ErrFieldMissing ''z''" "[]"
        "[''t'' \<mapsto> \<lparr>lookup = ''lk'', indexes = [''idx1'', ''idx2'']\<rparr>]"
        "\<lparr>handledFilters = [], queryIndexes = [''idx1'', ''idx2'']\<rparr>"]
  by (simp add: fixFieldIndexes_def transformTable_def pushFilters_def pushProjection_def
        pushIndex_def transformDefault_def)

end
